theory Spec2Isabelle
  imports Main "HOL-Library.Word"
begin

unbundle bit_operations_syntax

section \<open>Python values\<close>

text \<open>
  The module \<^verbatim>\<open>signature.py\<close> has three functions: \<^verbatim>\<open>decode_jwt_payload\<close>,
  \<^verbatim>\<open>zs\<close> and \<^verbatim>\<open>generate_zs_signature\<close>. They work on Python strings, bytes,
  unbounded integers and the values \<^verbatim>\<open>json.loads\<close> returns.

  A Python \<^verbatim>\<open>str\<close> is a sequence of Unicode code points (\<^verbatim>\<open>len\<close> counts code points,
  and a \<^verbatim>\<open>str\<close> may hold lone surrogates), so a string is a list of code points here.
  A \<^verbatim>\<open>bytes\<close> value is a list of 8-bit words, a Python \<^verbatim>\<open>int\<close> is an \<open>int\<close>.
\<close>

type_synonym byte = "8 word"
type_synonym u32 = "32 word"
type_synonym pystr = "nat list"

definition lit :: "string \<Rightarrow> pystr" where
  "lit s = map of_char s"

text \<open>
  The exceptions the three functions and the library calls under them can raise. All of
  them are subclasses of \<^verbatim>\<open>Exception\<close>, which is what the handler of
  \<^verbatim>\<open>generate_zs_signature\<close> catches. \<open>OtherError\<close> stands for any further
  \<^verbatim>\<open>Exception\<close> subclass a collaborator may raise.
\<close>

datatype exn =
    IndexError
  | ValueError
  | BinasciiError
  | JSONDecodeError
  | UnicodeDecodeError
  | UnicodeEncodeError
  | RecursionError
  | KeyError
  | TypeError
  | OtherError nat

text \<open>
  What \<^verbatim>\<open>json.loads\<close> returns: \<^verbatim>\<open>None\<close>, a \<^verbatim>\<open>bool\<close>, an \<^verbatim>\<open>int\<close>, a \<^verbatim>\<open>float\<close>
  (its 64 bits), a \<^verbatim>\<open>str\<close>, a \<^verbatim>\<open>list\<close> or a \<^verbatim>\<open>dict\<close> with string keys (in insertion
  order, one entry for each key).
\<close>

datatype pyval =
    PNone
  | PBool bool
  | PInt int
  | PFloat "64 word"
  | PStr pystr
  | PList "pyval list"
  | PDict "(pystr \<times> pyval) list"

text \<open>
  The collaborators the module calls and that are not part of it:
  \<^item> \<open>json_loads\<close> is \<^verbatim>\<open>json.loads\<close> on a \<^verbatim>\<open>bytes\<close> argument;
  \<^item> \<open>float_repr\<close> and \<open>str_repr\<close> are \<^verbatim>\<open>repr\<close> on a float and on a string, which
    \<^verbatim>\<open>str\<close> of a list or dict uses for its elements;
  \<^item> \<open>exc_str\<close> is \<^verbatim>\<open>str\<close> of a caught exception;
  \<^item> \<open>debug_log\<close> is \<^verbatim>\<open>app.utils.helpers.debug_log\<close>, the diagnostic log sink: \<open>None\<close>
    when the call returns, \<open>Some x\<close> when it raises \<open>x\<close>.
\<close>

record env =
  json_loads :: "byte list \<Rightarrow> exn + pyval"
  float_repr :: "64 word \<Rightarrow> pystr"
  str_repr :: "pystr \<Rightarrow> pystr"
  exc_str :: "exn \<Rightarrow> pystr"
  debug_log :: "pystr \<Rightarrow> exn option"

section \<open>Strings and integers\<close>

text \<open>\<^verbatim>\<open>s.split(sep)\<close> for a separator of one character: never an empty list.\<close>

fun str_split :: "nat \<Rightarrow> pystr \<Rightarrow> pystr list" where
  "str_split sep [] = [[]]"
| "str_split sep (c # cs) =
     (if c = sep then [] # str_split sep cs
      else (case str_split sep cs of
              [] \<Rightarrow> [[c]]
            | p # ps \<Rightarrow> (c # p) # ps))"

text \<open>\<^verbatim>\<open>xs[i]\<close> for \<open>i \<ge> 0\<close>: IndexError out of range.\<close>

definition list_index :: "'a list \<Rightarrow> nat \<Rightarrow> exn + 'a" where
  "list_index xs i = (if i < length xs then Inr (xs ! i) else Inl IndexError)"

text \<open>\<^verbatim>\<open>str(n)\<close> for an integer: base 10, a leading minus sign, no separators.\<close>

fun nat_digits :: "nat \<Rightarrow> pystr" where
  "nat_digits n = (if n < 10 then [48 + n] else nat_digits (n div 10) @ [48 + n mod 10])"

declare nat_digits.simps [simp del]

definition str_int :: "int \<Rightarrow> pystr" where
  "str_int i = (if i < 0 then 45 # nat_digits (nat (- i)) else nat_digits (nat i))"

text \<open>The value a string of decimal digits denotes.\<close>

definition digits_value :: "pystr \<Rightarrow> nat" where
  "digits_value ds = foldl (\<lambda>a d. 10 * a + (d - 48)) 0 ds"

text \<open>
  \<^verbatim>\<open>s.encode('utf-8')\<close>: surrogate code points have no UTF-8 form and raise
  UnicodeEncodeError. A Python string holds code points below \<open>0x110000\<close> only.
\<close>

definition encodable :: "pystr \<Rightarrow> bool" where
  "encodable s = (\<forall>c \<in> set s. c < 0x110000 \<and> \<not> (0xD800 \<le> c \<and> c \<le> 0xDFFF))"

definition utf8_char :: "nat \<Rightarrow> byte list" where
  "utf8_char c =
     (if c < 0x80 then [of_nat c]
      else if c < 0x800 then [of_nat (0xC0 + c div 64), of_nat (0x80 + c mod 64)]
      else if c < 0x10000 then
        [of_nat (0xE0 + c div 4096), of_nat (0x80 + c div 64 mod 64), of_nat (0x80 + c mod 64)]
      else
        [of_nat (0xF0 + c div 262144), of_nat (0x80 + c div 4096 mod 64),
         of_nat (0x80 + c div 64 mod 64), of_nat (0x80 + c mod 64)])"

definition utf8 :: "pystr \<Rightarrow> byte list" where
  "utf8 s = concat (map utf8_char s)"

definition encode_utf8 :: "pystr \<Rightarrow> exn + byte list" where
  "encode_utf8 s = (if encodable s then Inr (utf8 s) else Inl UnicodeEncodeError)"

section \<open>base64.urlsafe_b64decode\<close>

text \<open>
  \<^verbatim>\<open>base64.urlsafe_b64decode(s)\<close> on a \<^verbatim>\<open>str\<close>: the string is encoded as ASCII (ValueError
  on a code point above 127), \<^verbatim>\<open>-\<close> and \<^verbatim>\<open>_\<close> are translated to \<^verbatim>\<open>+\<close> and \<^verbatim>\<open>/\<close>, and
  \<^verbatim>\<open>binascii.a2b_base64\<close> decodes the result in its non-strict mode: characters outside
  the alphabet are skipped, a complete pad sequence ends the decoding, and input that
  ends inside a group of four raises \<^verbatim>\<open>binascii.Error\<close>.
\<close>

definition b64_value :: "nat \<Rightarrow> byte option" where
  "b64_value c =
     (if 65 \<le> c \<and> c \<le> 90 then Some (of_nat (c - 65))
      else if 97 \<le> c \<and> c \<le> 122 then Some (of_nat (c - 71))
      else if 48 \<le> c \<and> c \<le> 57 then Some (of_nat (c + 4))
      else if c = 43 then Some 62
      else if c = 47 then Some 63
      else None)"

fun a2b_base64 :: "nat \<Rightarrow> byte \<Rightarrow> nat \<Rightarrow> byte list \<Rightarrow> nat list \<Rightarrow> exn + byte list" where
  "a2b_base64 quad_pos leftchar pads out [] =
     (if quad_pos \<noteq> 0 then Inl BinasciiError else Inr out)"
| "a2b_base64 quad_pos leftchar pads out (c # cs) =
     (if c = 61 then
        (if 2 \<le> quad_pos \<and> 4 \<le> quad_pos + (pads + 1) then Inr out
         else a2b_base64 quad_pos leftchar (if 2 \<le> quad_pos then pads + 1 else pads) out cs)
      else
        (case b64_value c of
           None \<Rightarrow> a2b_base64 quad_pos leftchar pads out cs
         | Some v \<Rightarrow>
             (if quad_pos = 0 then a2b_base64 1 v 0 out cs
              else if quad_pos = 1 then
                a2b_base64 2 (v AND 0x0f) 0 (out @ [push_bit 2 leftchar OR drop_bit 4 v]) cs
              else if quad_pos = 2 then
                a2b_base64 3 (v AND 0x03) 0 (out @ [push_bit 4 leftchar OR drop_bit 2 v]) cs
              else
                a2b_base64 0 0 0 (out @ [push_bit 6 leftchar OR v]) cs)))"

definition urlsafe_translate :: "nat \<Rightarrow> nat" where
  "urlsafe_translate c = (if c = 45 then 43 else if c = 95 then 47 else c)"

definition urlsafe_b64decode :: "pystr \<Rightarrow> exn + byte list" where
  "urlsafe_b64decode s =
     (if \<exists>c \<in> set s. 128 \<le> c then Inl ValueError
      else a2b_base64 0 0 0 [] (map urlsafe_translate s))"

section \<open>decode_jwt_payload\<close>

text \<open>
  Lines 30-32: \<^verbatim>\<open>padding = 4 - len(payload) % 4\<close>, and \<^verbatim>\<open>payload += '=' * padding\<close>
  when \<^verbatim>\<open>padding != 4\<close>.
\<close>

definition pad_payload :: "pystr \<Rightarrow> pystr" where
  "pad_payload payload =
     (let padding = 4 - int (length payload) mod 4
      in if padding \<noteq> 4 then payload @ replicate (nat padding) 61 else payload)"

definition decode_jwt_payload :: "env \<Rightarrow> pystr \<Rightarrow> exn + pyval" where
  "decode_jwt_payload env token =
     (let parts = str_split 46 token
      in case list_index parts 1 of
           Inl x \<Rightarrow> Inl x
         | Inr payload \<Rightarrow>
             (case urlsafe_b64decode (pad_payload payload) of
                Inl x \<Rightarrow> Inl x
              | Inr decoded \<Rightarrow> json_loads env decoded))"

section \<open>hashlib.sha256 and hmac\<close>

text \<open>
  SHA-256 (FIPS 180-4) on a list of bytes: the message is padded with \<open>0x80\<close>, zero
  bytes and its length in bits as a 64-bit big-endian number, cut into blocks of 64
  bytes, and each block is compressed into the state of eight 32-bit words.
\<close>

definition K256 :: "u32 list" where
  "K256 = [
    0x428A2F98, 0x71374491, 0xB5C0FBCF, 0xE9B5DBA5, 0x3956C25B, 0x59F111F1, 0x923F82A4, 0xAB1C5ED5,
    0xD807AA98, 0x12835B01, 0x243185BE, 0x550C7DC3, 0x72BE5D74, 0x80DEB1FE, 0x9BDC06A7, 0xC19BF174,
    0xE49B69C1, 0xEFBE4786, 0x0FC19DC6, 0x240CA1CC, 0x2DE92C6F, 0x4A7484AA, 0x5CB0A9DC, 0x76F988DA,
    0x983E5152, 0xA831C66D, 0xB00327C8, 0xBF597FC7, 0xC6E00BF3, 0xD5A79147, 0x06CA6351, 0x14292967,
    0x27B70A85, 0x2E1B2138, 0x4D2C6DFC, 0x53380D13, 0x650A7354, 0x766A0ABB, 0x81C2C92E, 0x92722C85,
    0xA2BFE8A1, 0xA81A664B, 0xC24B8B70, 0xC76C51A3, 0xD192E819, 0xD6990624, 0xF40E3585, 0x106AA070,
    0x19A4C116, 0x1E376C08, 0x2748774C, 0x34B0BCB5, 0x391C0CB3, 0x4ED8AA4A, 0x5B9CCA4F, 0x682E6FF3,
    0x748F82EE, 0x78A5636F, 0x84C87814, 0x8CC70208, 0x90BEFFFA, 0xA4506CEB, 0xBEF9A3F7, 0xC67178F2]"

definition rotr :: "nat \<Rightarrow> u32 \<Rightarrow> u32" where
  "rotr n x = drop_bit n x OR push_bit (32 - n) x"

definition Ch :: "u32 \<Rightarrow> u32 \<Rightarrow> u32 \<Rightarrow> u32" where
  "Ch x y z = (x AND y) XOR (NOT x AND z)"

definition Maj :: "u32 \<Rightarrow> u32 \<Rightarrow> u32 \<Rightarrow> u32" where
  "Maj x y z = (x AND y) XOR (x AND z) XOR (y AND z)"

definition Sigma0 :: "u32 \<Rightarrow> u32" where
  "Sigma0 x = rotr 2 x XOR rotr 13 x XOR rotr 22 x"

definition Sigma1 :: "u32 \<Rightarrow> u32" where
  "Sigma1 x = rotr 6 x XOR rotr 11 x XOR rotr 25 x"

definition sigma0 :: "u32 \<Rightarrow> u32" where
  "sigma0 x = rotr 7 x XOR rotr 18 x XOR drop_bit 3 x"

definition sigma1 :: "u32 \<Rightarrow> u32" where
  "sigma1 x = rotr 17 x XOR rotr 19 x XOR drop_bit 10 x"

definition be32 :: "byte \<Rightarrow> byte \<Rightarrow> byte \<Rightarrow> byte \<Rightarrow> u32" where
  "be32 a b c d =
     push_bit 24 (ucast a) OR push_bit 16 (ucast b) OR push_bit 8 (ucast c) OR ucast d"

fun block_words :: "byte list \<Rightarrow> u32 list" where
  "block_words (a # b # c # d # rest) = be32 a b c d # block_words rest"
| "block_words _ = []"

function schedule :: "u32 list \<Rightarrow> u32 list" where
  "schedule w =
     (if 16 \<le> length w \<and> length w < 64
      then schedule (w @ [sigma1 (w ! (length w - 2)) + w ! (length w - 7)
                          + sigma0 (w ! (length w - 15)) + w ! (length w - 16)])
      else w)"
  by pat_completeness auto
termination
  by (relation "measure (\<lambda>w. 64 - length w)") auto

declare schedule.simps [simp del]

type_synonym sha_state = "u32 \<times> u32 \<times> u32 \<times> u32 \<times> u32 \<times> u32 \<times> u32 \<times> u32"

fun round256 :: "sha_state \<Rightarrow> u32 \<times> u32 \<Rightarrow> sha_state" where
  "round256 (a, b, c, d, e, f, g, h) (k, w) =
     (let t1 = h + Sigma1 e + Ch e f g + k + w;
          t2 = Sigma0 a + Maj a b c
      in (t1 + t2, a, b, c, d + t1, e, f, g))"

fun add_state :: "sha_state \<Rightarrow> sha_state \<Rightarrow> sha_state" where
  "add_state (a, b, c, d, e, f, g, h) (a', b', c', d', e', f', g', h') =
     (a + a', b + b', c + c', d + d', e + e', f + f', g + g', h + h')"

definition compress :: "sha_state \<Rightarrow> byte list \<Rightarrow> sha_state" where
  "compress s block =
     add_state s (foldl round256 s (zip K256 (schedule (block_words block))))"

definition H256 :: sha_state where
  "H256 = (0x6A09E667, 0xBB67AE85, 0x3C6EF372, 0xA54FF53A,
           0x510E527F, 0x9B05688C, 0x1F83D9AB, 0x5BE0CD19)"

text \<open>The length of the message in bits, in the 64-bit counter of the implementation.\<close>

fun bit_length :: "byte list \<Rightarrow> 64 word" where
  "bit_length [] = 0"
| "bit_length (b # bs) = bit_length bs + 8"

definition be64 :: "64 word \<Rightarrow> byte list" where
  "be64 w = map (\<lambda>i. ucast (drop_bit i w)) [56, 48, 40, 32, 24, 16, 8, 0]"

definition sha_pad :: "byte list \<Rightarrow> byte list" where
  "sha_pad m =
     m @ [0x80] @ replicate ((119 - length m mod 64) mod 64) 0 @ be64 (bit_length m)"

fun blocks :: "byte list \<Rightarrow> byte list list" where
  "blocks [] = []"
| "blocks (b # bs) = take 64 (b # bs) # blocks (drop 63 bs)"

definition word_bytes :: "u32 \<Rightarrow> byte list" where
  "word_bytes w = [ucast (drop_bit 24 w), ucast (drop_bit 16 w), ucast (drop_bit 8 w), ucast w]"

fun state_bytes :: "sha_state \<Rightarrow> byte list" where
  "state_bytes (a, b, c, d, e, f, g, h) =
     concat (map word_bytes [a, b, c, d, e, f, g, h])"

definition sha256 :: "byte list \<Rightarrow> byte list" where
  "sha256 m = state_bytes (foldl compress H256 (blocks (sha_pad m)))"

text \<open>
  \<^verbatim>\<open>hmac.new(key, msg, hashlib.sha256).digest()\<close> (RFC 2104, block size 64): a key longer
  than a block is hashed first, then padded with zero bytes to a block.
\<close>

definition hmac_key_block :: "byte list \<Rightarrow> byte list" where
  "hmac_key_block key =
     (let k = (if 64 < length key then sha256 key else key)
      in k @ replicate (64 - length k) 0)"

definition hmac_sha256 :: "byte list \<Rightarrow> byte list \<Rightarrow> byte list" where
  "hmac_sha256 key msg =
     (let kb = hmac_key_block key
      in sha256 (map (\<lambda>b. b XOR 0x5c) kb @ sha256 (map (\<lambda>b. b XOR 0x36) kb @ msg)))"

text \<open>\<^verbatim>\<open>hexdigest()\<close>: two lowercase hexadecimal digits for each byte.\<close>

definition hex_digit :: "byte \<Rightarrow> nat" where
  "hex_digit d = (if d < 10 then 48 + unat d else 87 + unat d)"

definition hexdigest :: "byte list \<Rightarrow> pystr" where
  "hexdigest bs = concat (map (\<lambda>b. [hex_digit (drop_bit 4 b), hex_digit (b AND 0x0f)]) bs)"

section \<open>zs, the core signer\<close>

text \<open>
  The returned dict \<^verbatim>\<open>{"signature": signature, "timestamp": timestamp}\<close>: the
  signature is a string, the timestamp stays an integer.
\<close>

record sig_result =
  sig_signature :: pystr
  sig_timestamp :: int

text \<open>
  Lines 52-54: the window index \<^verbatim>\<open>n = timestamp // (5 * 60 * 1000)\<close> and the derived key
  \<^verbatim>\<open>o = hmac.new("junjie".encode('utf-8'), str(n).encode('utf-8'), hashlib.sha256).hexdigest()\<close>.
  Python's \<^verbatim>\<open>//\<close> rounds towards minus infinity, as \<open>div\<close> on \<open>int\<close> does.
\<close>

definition derived_key :: "int \<Rightarrow> exn + pystr" where
  "derived_key timestamp =
     (let n = timestamp div (5 * 60 * 1000)
      in case encode_utf8 (lit ''junjie'') of
           Inl x \<Rightarrow> Inl x
         | Inr key \<Rightarrow>
             (case encode_utf8 (str_int n) of
                Inl x \<Rightarrow> Inl x
              | Inr msg \<Rightarrow> Inr (hexdigest (hmac_sha256 key msg))))"

definition zs :: "pystr \<Rightarrow> pystr \<Rightarrow> int \<Rightarrow> exn + sig_result" where
  "zs e t timestamp =
     (let r = str_int timestamp;
          i = e @ lit ''|'' @ t @ lit ''|'' @ r
      in case derived_key timestamp of
           Inl x \<Rightarrow> Inl x
         | Inr o_key \<Rightarrow>
             (case encode_utf8 o_key of
                Inl x \<Rightarrow> Inl x
              | Inr key \<Rightarrow>
                  (case encode_utf8 i of
                     Inl x \<Rightarrow> Inl x
                   | Inr msg \<Rightarrow>
                       Inr \<lparr>sig_signature = hexdigest (hmac_sha256 key msg),
                            sig_timestamp = timestamp\<rparr>)))"

section \<open>generate_zs_signature\<close>

text \<open>
  \<^verbatim>\<open>payload['id']\<close>: KeyError when a dict has no such key, TypeError when the value
  is not a dict (a list and a string take integer indices only, the other values are not
  subscriptable).
\<close>

definition subscript :: "pyval \<Rightarrow> pystr \<Rightarrow> exn + pyval" where
  "subscript v k =
     (case v of
        PDict kvs \<Rightarrow> (case map_of kvs k of None \<Rightarrow> Inl KeyError | Some x \<Rightarrow> Inr x)
      | _ \<Rightarrow> Inl TypeError)"

text \<open>
  \<^verbatim>\<open>str(v)\<close>, which an f-string applies to a value it interpolates: a string is taken
  as it is, the elements of a list or dict are shown by \<^verbatim>\<open>repr\<close>.
\<close>

fun join :: "pystr \<Rightarrow> pystr list \<Rightarrow> pystr" where
  "join sep [] = []"
| "join sep [x] = x"
| "join sep (x # y # ys) = x @ sep @ join sep (y # ys)"

fun py_repr :: "env \<Rightarrow> pyval \<Rightarrow> pystr" where
  "py_repr env PNone = lit ''None''"
| "py_repr env (PBool b) = (if b then lit ''True'' else lit ''False'')"
| "py_repr env (PInt i) = str_int i"
| "py_repr env (PFloat f) = float_repr env f"
| "py_repr env (PStr s) = str_repr env s"
| "py_repr env (PList vs) = lit ''['' @ join (lit '', '') (map (py_repr env) vs) @ lit '']''"
| "py_repr env (PDict kvs) =
     lit ''{'' @ join (lit '', '')
       (map (\<lambda>kv. str_repr env (fst kv) @ lit '': '' @ py_repr env (snd kv)) kvs) @ lit ''}''"

definition py_str :: "env \<Rightarrow> pyval \<Rightarrow> pystr" where
  "py_str env v = (case v of PStr s \<Rightarrow> s | _ \<Rightarrow> py_repr env v)"

text \<open>Lines 78-79, the body of the \<^verbatim>\<open>try\<close>: decode the payload and take its \<^verbatim>\<open>id\<close>.\<close>

definition extract_user_id :: "env \<Rightarrow> pystr \<Rightarrow> exn + pyval" where
  "extract_user_id env token =
     (case decode_jwt_payload env token of
        Inl x \<Rightarrow> Inl x
      | Inr payload \<Rightarrow> subscript payload (lit ''id''))"

text \<open>
  Lines 77-82, the whole \<^verbatim>\<open>try\<close> statement. The handler catches every \<^verbatim>\<open>Exception\<close>,
  calls \<^verbatim>\<open>debug_log\<close> with the message formatted from the exception, and only then binds
  \<^verbatim>\<open>user_id = "guest-user"\<close>. The call of \<^verbatim>\<open>debug_log\<close> stands unguarded inside the
  handler, so what it raises leaves the function.
\<close>

definition log_message :: "env \<Rightarrow> exn \<Rightarrow> pystr" where
  "log_message env e =
     [0x89E3, 0x7801] @ lit ''JWT token'' @ [0x5931, 0x8D25] @ lit '': '' @ exc_str env e"

definition derive_user_id :: "env \<Rightarrow> pystr \<Rightarrow> exn + pyval" where
  "derive_user_id env token =
     (case extract_user_id env token of
        Inr user_id \<Rightarrow> Inr user_id
      | Inl e \<Rightarrow>
          (case debug_log env (log_message env e) of
             Some x \<Rightarrow> Inl x
           | None \<Rightarrow> Inr (PStr (lit ''guest-user''))))"

text \<open>
  Line 85: \<^verbatim>\<open>e = f"requestId,{request_id},timestamp,{timestamp},user_id,{user_id}"\<close>.
\<close>

definition descriptor :: "env \<Rightarrow> pystr \<Rightarrow> int \<Rightarrow> pyval \<Rightarrow> pystr" where
  "descriptor env request_id timestamp user_id =
     lit ''requestId,'' @ request_id @ lit '',timestamp,'' @ str_int timestamp
       @ lit '',user_id,'' @ py_str env user_id"

definition generate_zs_signature :: "env \<Rightarrow> pystr \<Rightarrow> pystr \<Rightarrow> int \<Rightarrow> pystr \<Rightarrow> exn + sig_result" where
  "generate_zs_signature env token request_id timestamp user_content =
     (case derive_user_id env token of
        Inl x \<Rightarrow> Inl x
      | Inr user_id \<Rightarrow>
          (let e = descriptor env request_id timestamp user_id
           in zs e user_content timestamp))"

text \<open>
  Lines 27-34 of \<^verbatim>\<open>decode_jwt_payload\<close> taken alone: the bytes the payload segment decodes
  to, before \<^verbatim>\<open>json.loads\<close> reads them.
\<close>

definition payload_bytes :: "pystr \<Rightarrow> exn + byte list" where
  "payload_bytes token =
     (case list_index (str_split 46 token) 1 of
        Inl x \<Rightarrow> Inl x
      | Inr payload \<Rightarrow> urlsafe_b64decode (pad_payload payload))"

section \<open>The specification's formulas\<close>

text \<open>
  The signature as the specification words it: the derived key \<open>o\<close> is the lowercase
  hexadecimal HMAC-SHA256 digest of the decimal string of \<open>timestamp // 300000\<close> under the
  key \<^verbatim>\<open>junjie\<close>, and the signature is the lowercase hexadecimal HMAC-SHA256 digest of
  \<open>e + "|" + t + "|" + str(timestamp)\<close> under the key \<open>o\<close>, every string as its UTF-8 bytes.
\<close>

definition spec_derived_key :: "int \<Rightarrow> pystr" where
  "spec_derived_key timestamp =
     hexdigest (hmac_sha256 [0x6a, 0x75, 0x6e, 0x6a, 0x69, 0x65]
       (utf8 (str_int (timestamp div 300000))))"

definition spec_signature :: "pystr \<Rightarrow> pystr \<Rightarrow> int \<Rightarrow> pystr" where
  "spec_signature e t timestamp =
     hexdigest (hmac_sha256 (utf8 (spec_derived_key timestamp))
       (utf8 (e @ [124] @ t @ [124] @ str_int timestamp)))"

text \<open>The padding length as the specification words it: \<open>(4 - length % 4) % 4\<close>.\<close>

definition spec_padding :: "nat \<Rightarrow> nat" where
  "spec_padding l = nat ((4 - int l mod 4) mod 4)"

section \<open>Environments for the examples\<close>

text \<open>
  Two concrete environments. In both, the JSON decoder knows the documents
  \<^verbatim>\<open>{"id":"u123"}\<close>, \<^verbatim>\<open>{"id":42}\<close> and \<^verbatim>\<open>{}\<close> and rejects every other input; in the
  first the log sink returns, in the second it raises.
\<close>

definition example_json_loads :: "byte list \<Rightarrow> exn + pyval" where
  "example_json_loads bs =
     (if bs = [123, 34, 105, 100, 34, 58, 34, 117, 49, 50, 51, 34, 125]
        then Inr (PDict [(lit ''id'', PStr (lit ''u123''))])
      else if bs = [123, 34, 105, 100, 34, 58, 52, 50, 125]
        then Inr (PDict [(lit ''id'', PInt 42)])
      else if bs = [123, 125] then Inr (PDict [])
      else Inl JSONDecodeError)"

definition example_env :: env where
  "example_env =
     \<lparr>json_loads = example_json_loads,
      float_repr = (\<lambda>f. lit ''nan''),
      str_repr = (\<lambda>s. [39] @ s @ [39]),
      exc_str = (\<lambda>e. lit ''error''),
      debug_log = (\<lambda>m. None)\<rparr>"

definition failing_log_env :: env where
  "failing_log_env = example_env\<lparr>debug_log := (\<lambda>m. Some (OtherError 0))\<rparr>"

section \<open>Facts about the library functions\<close>

subsection \<open>Decimal strings\<close>

lemma nat_digits_set: "set (nat_digits n) \<subseteq> {48..57}"
proof (induction n rule: nat_digits.induct)
  case (1 n)
  show ?case
  proof (cases "n < 10")
    case True
    then show ?thesis by (subst nat_digits.simps) auto
  next
    case False
    have "48 + n mod 10 \<in> {48..57}" by auto
    with False 1 show ?thesis by (subst nat_digits.simps) auto
  qed
qed


lemma digits_value_snoc: "digits_value (ds @ [d]) = 10 * digits_value ds + (d - 48)"
  by (simp add: digits_value_def)

lemma digits_value_nat_digits: "digits_value (nat_digits n) = n"
proof (induction n rule: nat_digits.induct)
  case (1 n)
  show ?case
  proof (cases "n < 10")
    case True
    then show ?thesis by (subst nat_digits.simps) (simp add: digits_value_def)
  next
    case False
    with 1 show ?thesis by (subst nat_digits.simps) (simp add: digits_value_snoc)
  qed
qed

lemma nat_digits_inj: "nat_digits a = nat_digits b \<Longrightarrow> a = b"
  by (metis digits_value_nat_digits)

lemma nat_digits_no_minus: "nat_digits n \<noteq> 45 # ds"
proof
  assume "nat_digits n = 45 # ds"
  then have "45 \<in> set (nat_digits n)" by simp
  with nat_digits_set [of n] show False by auto
qed

lemma str_int_inj: "str_int a = str_int b \<Longrightarrow> a = b"
proof -
  assume eq: "str_int a = str_int b"
  consider (nn) "a < 0" "b < 0" | (np) "a < 0" "\<not> b < 0" | (pn) "\<not> a < 0" "b < 0" | (pp) "\<not> a < 0" "\<not> b < 0"
    by blast
  then show ?thesis
  proof cases
    case nn
    with eq have "nat (- a) = nat (- b)" by (simp add: str_int_def nat_digits_inj)
    with nn show ?thesis by simp
  next
    case np
    with eq show ?thesis using nat_digits_no_minus [of "nat b" "nat_digits (nat (- a))"]
      by (simp add: str_int_def)
  next
    case pn
    with eq show ?thesis using nat_digits_no_minus [of "nat a" "nat_digits (nat (- b))"]
      by (simp add: str_int_def)
  next
    case pp
    with eq have "nat a = nat b" by (simp add: str_int_def nat_digits_inj)
    with pp show ?thesis by simp
  qed
qed

lemma str_int_ascii: "c \<in> set (str_int i) \<Longrightarrow> c < 128"
  using nat_digits_set [of "nat i"] nat_digits_set [of "nat (- i)"]
  by (auto simp: str_int_def split: if_splits)


subsection \<open>Hexadecimal digests\<close>

lemma high_nibble_less: "drop_bit 4 (b :: byte) < 16"
proof -
  have "unat (drop_bit 4 b) < 16"
    using unsigned_less [of b, where 'a = nat] by (simp add: unat_drop_bit_eq drop_bit_eq_div unat_div)
  then show ?thesis by (simp add: word_less_nat_alt)
qed

lemma low_nibble_less: "(b :: byte) AND 0x0f < 16"
proof -
  have "b AND 0x0f \<le> 0x0f" by (rule word_and_le1)
  then show ?thesis by unat_arith
qed

lemma hex_digit_range:
  "d < 16 \<Longrightarrow> hex_digit d \<in> {48..57} \<union> {97..102}"
  by (auto simp: hex_digit_def word_less_nat_alt word_le_nat_alt not_less)

lemma hex_digit_inj: "hex_digit a = hex_digit b \<Longrightarrow> a < 16 \<Longrightarrow> b < 16 \<Longrightarrow> a = b"
  by (auto simp: hex_digit_def word_less_nat_alt word_le_nat_alt not_less word_unat_eq_iff
      split: if_splits)

lemma nibbles_eq:
  fixes a b :: byte
  assumes h: "drop_bit 4 a = drop_bit 4 b" and l: "a AND 0x0f = b AND 0x0f"
  shows "a = b"
proof (rule bit_eqI)
  fix n
  show "bit a n = bit b n"
  proof (cases "n < 4")
    case True
    have m: "(0x0f :: byte) = mask 4" by (simp add: mask_eq_exp_minus_1)
    from l have "bit (a AND mask 4) n = bit (b AND mask 4) n" by (simp add: m)
    with True show ?thesis by (simp add: bit_and_iff bit_mask_iff)
  next
    case False
    from h have "bit (drop_bit 4 a) (n - 4) = bit (drop_bit 4 b) (n - 4)" by simp
    with False show ?thesis by (simp add: bit_drop_bit_eq)
  qed
qed


lemma set_hexdigest: "c \<in> set (hexdigest bs) \<Longrightarrow> c \<in> {48..57} \<union> {97..102}"
proof -
  assume "c \<in> set (hexdigest bs)"
  then obtain b where "c = hex_digit (drop_bit 4 b) \<or> c = hex_digit (b AND 0x0f)"
    by (auto simp: hexdigest_def)
  then show ?thesis
    using hex_digit_range [OF high_nibble_less [of b]] hex_digit_range [OF low_nibble_less [of b]]
    by blast
qed

lemma hexdigest_inj: "hexdigest xs = hexdigest ys \<Longrightarrow> xs = ys"
proof (induction xs arbitrary: ys)
  case Nil
  then show ?case by (cases ys) (simp_all add: hexdigest_def)
next
  case (Cons x xs)
  then obtain y ys' where ys: "ys = y # ys'"
    by (cases ys) (simp_all add: hexdigest_def)
  with Cons.prems have hd: "hex_digit (drop_bit 4 x) = hex_digit (drop_bit 4 y)"
    and lo: "hex_digit (x AND 0x0f) = hex_digit (y AND 0x0f)"
    and tl: "hexdigest xs = hexdigest ys'"
    by (simp_all add: hexdigest_def)
  have "x = y"
    using hex_digit_inj [OF hd high_nibble_less high_nibble_less]
      hex_digit_inj [OF lo low_nibble_less low_nibble_less]
    by (rule nibbles_eq)
  with Cons.IH [OF tl] ys show ?case by simp
qed





subsection \<open>UTF-8 encoding\<close>

lemma encodable_append: "encodable (a @ b) \<longleftrightarrow> encodable a \<and> encodable b"
  by (auto simp: encodable_def)

lemma encodable_ascii: "(\<And>c. c \<in> set s \<Longrightarrow> c < 128) \<Longrightarrow> encodable s"
  by (fastforce simp: encodable_def)

lemma utf8_ascii: "(\<And>c. c \<in> set s \<Longrightarrow> c < 128) \<Longrightarrow> utf8 s = map of_nat s"
  by (induction s) (simp_all add: utf8_def utf8_char_def)

lemma hexdigest_ascii: "c \<in> set (hexdigest bs) \<Longrightarrow> c < 128"
  using set_hexdigest [of c bs] by auto

lemma encode_str_int: "encode_utf8 (str_int n) = Inr (map of_nat (str_int n))"
  by (simp add: encode_utf8_def encodable_ascii utf8_ascii str_int_ascii)

lemma encode_hexdigest: "encode_utf8 (hexdigest bs) = Inr (map of_nat (hexdigest bs))"
  by (simp add: encode_utf8_def encodable_ascii utf8_ascii hexdigest_ascii)

lemma encode_junjie: "encode_utf8 (lit ''junjie'') = Inr [0x6a, 0x75, 0x6e, 0x6a, 0x69, 0x65]"
  by (simp add: encode_utf8_def encodable_def utf8_def utf8_char_def lit_def)

lemma ascii_bytes_inj:
  "map of_nat a = (map of_nat b :: byte list) \<Longrightarrow> (\<And>c. c \<in> set a \<Longrightarrow> c < 128)
     \<Longrightarrow> (\<And>c. c \<in> set b \<Longrightarrow> c < 128) \<Longrightarrow> a = b"
proof (induction a arbitrary: b)
  case Nil
  then show ?case by simp
next
  case (Cons x xs)
  then obtain y ys where b: "b = y # ys" by (cases b) auto
  with Cons.prems have xy: "(of_nat x :: byte) = of_nat y" and rest: "map of_nat xs = (map of_nat ys :: byte list)"
    by simp_all
  from Cons.prems b have "x < 128" "y < 128" by simp_all
  then have "unat (of_nat x :: byte) = x" "unat (of_nat y :: byte) = y"
    by (simp_all add: unat_of_nat)
  with xy have "x = y" by metis
  moreover have "xs = ys"
    using Cons.IH [OF rest] Cons.prems b by simp
  ultimately show ?case using b by simp
qed

section \<open>Facts about the core signer\<close>

lemma derived_key_eq:
  "derived_key timestamp =
     Inr (hexdigest (hmac_sha256 [0x6a, 0x75, 0x6e, 0x6a, 0x69, 0x65]
            (map of_nat (str_int (timestamp div 300000)))))"
  by (simp add: derived_key_def encode_junjie encode_str_int)

lemma encodable_message:
  "encodable (e @ lit ''|'' @ t @ lit ''|'' @ str_int timestamp) \<longleftrightarrow> encodable e \<and> encodable t"
proof -
  have "encodable (lit ''|'')" by (simp add: encodable_def lit_def)
  moreover have "encodable (str_int timestamp)" by (simp add: encodable_ascii str_int_ascii)
  ultimately show ?thesis by (simp add: encodable_append)
qed

lemma zs_returns:
  assumes "encodable e" and "encodable t"
  shows "zs e t timestamp =
     Inr \<lparr>sig_signature =
            hexdigest (hmac_sha256
              (map of_nat (hexdigest (hmac_sha256 [0x6a, 0x75, 0x6e, 0x6a, 0x69, 0x65]
                 (map of_nat (str_int (timestamp div 300000))))))
              (utf8 (e @ [124] @ t @ [124] @ str_int timestamp))),
          sig_timestamp = timestamp\<rparr>"
proof -
  have "encode_utf8 (e @ lit ''|'' @ t @ lit ''|'' @ str_int timestamp) =
          Inr (utf8 (e @ lit ''|'' @ t @ lit ''|'' @ str_int timestamp))"
    using assms by (simp add: encode_utf8_def encodable_message)
  moreover have "lit ''|'' = [124]" by (simp add: lit_def)
  ultimately show ?thesis
    by (simp add: zs_def derived_key_eq encode_hexdigest)
qed


lemma utf8_str_int: "utf8 (str_int n) = map of_nat (str_int n)"
  by (simp add: utf8_ascii str_int_ascii)

lemma utf8_hexdigest: "utf8 (hexdigest bs) = map of_nat (hexdigest bs)"
  by (simp add: utf8_ascii hexdigest_ascii)

lemma derived_key_spec: "derived_key timestamp = Inr (spec_derived_key timestamp)"
  by (simp add: derived_key_eq spec_derived_key_def utf8_str_int)

lemma replicate_numeral: "replicate (numeral k) x = x # replicate (pred_numeral k) x"
  by (simp add: numeral_eq_Suc)



section \<open>Facts about the token extractor and the entry point\<close>

lemma decode_jwt_payload_bytes:
  "decode_jwt_payload env token =
     (case payload_bytes token of Inl x \<Rightarrow> Inl x | Inr decoded \<Rightarrow> json_loads env decoded)"
  by (simp add: decode_jwt_payload_def payload_bytes_def split: sum.splits)


lemma payload_bytes_segments:
  "str_split 46 token = header # payload # rest \<Longrightarrow>
   payload_bytes token = urlsafe_b64decode (pad_payload payload)"
  by (simp add: payload_bytes_def list_index_def)




lemma extract_id:
  "payload_bytes token = Inr decoded \<Longrightarrow> json_loads env decoded = Inr (PDict kvs)
     \<Longrightarrow> map_of kvs (lit ''id'') = Some v \<Longrightarrow> extract_user_id env token = Inr v"
  by (simp add: extract_user_id_def decode_jwt_payload_bytes subscript_def)

lemma derive_success:
  "extract_user_id env token = Inr v \<Longrightarrow> derive_user_id env token = Inr v"
  by (simp add: derive_user_id_def)


lemma generate_derived:
  "derive_user_id env token = Inr user_id \<Longrightarrow>
   generate_zs_signature env token request_id timestamp user_content =
     zs (descriptor env request_id timestamp user_id) user_content timestamp"
  by (simp add: generate_zs_signature_def)


lemma descriptor_str:
  "descriptor env request_id timestamp (PStr s) =
     lit ''requestId,'' @ request_id @ lit '',timestamp,'' @ str_int timestamp
       @ lit '',user_id,'' @ s"
  by (simp add: descriptor_def py_str_def)


lemma py_repr_cong:
  assumes "float_repr env1 = float_repr env2" and "str_repr env1 = str_repr env2"
  shows "py_repr env1 v = py_repr env2 v"
  using assms by (induction v) (auto intro!: arg_cong [where f = "join _"])

lemma py_str_cong:
  assumes "float_repr env1 = float_repr env2" and "str_repr env1 = str_repr env2"
  shows "py_str env1 v = py_str env2 v"
proof -
  have "py_repr env1 = py_repr env2"
    by (rule ext) (rule py_repr_cong [OF assms])
  then show ?thesis by (cases v) (simp_all add: py_str_def)
qed

lemma extract_user_id_cong:
  "json_loads env1 = json_loads env2 \<Longrightarrow> extract_user_id env1 token = extract_user_id env2 token"
  by (simp add: extract_user_id_def decode_jwt_payload_bytes split: sum.splits)

section \<open>Example tokens\<close>





lemma example_u123: "payload_bytes (lit ''h.eyJpZCI6InUxMjMifQ.s'') = Inr [123, 34, 105, 100, 34, 58, 34, 117, 49, 50, 51, 34, 125]"
  by (simp add: payload_bytes_def list_index_def pad_payload_def urlsafe_b64decode_def
      urlsafe_translate_def b64_value_def lit_def replicate_numeral)

lemma example_42: "payload_bytes (lit ''h.eyJpZCI6NDJ9.s'') = Inr [123, 34, 105, 100, 34, 58, 52, 50, 125]"
  by (simp add: payload_bytes_def list_index_def pad_payload_def urlsafe_b64decode_def
      urlsafe_translate_def b64_value_def lit_def replicate_numeral)

lemma example_u123_segments:
  "str_split 46 (lit ''h.eyJpZCI6InUxMjMifQ.s'') = [lit ''h'', lit ''eyJpZCI6InUxMjMifQ'', lit ''s'']"
  by (simp add: lit_def)

lemma example_u123_decoded:
  "urlsafe_b64decode (pad_payload (lit ''eyJpZCI6InUxMjMifQ'')) =
     Inr [123, 34, 105, 100, 34, 58, 34, 117, 49, 50, 51, 34, 125]"
  by (simp add: pad_payload_def urlsafe_b64decode_def
      urlsafe_translate_def b64_value_def lit_def replicate_numeral)

lemma example_env_simps:
  "json_loads example_env = example_json_loads"
  "debug_log example_env m = None"
  "json_loads failing_log_env = example_json_loads"
  "debug_log failing_log_env m = Some (OtherError 0)"
  by (simp_all add: example_env_def failing_log_env_def)

lemma example_json_loads_simps:
  "example_json_loads [97, 98, 99] = Inl JSONDecodeError"
  "example_json_loads [123, 125] = Inr (PDict [])"
  "example_json_loads [123, 34, 105, 100, 34, 58, 34, 117, 49, 50, 51, 34, 125] =
     Inr (PDict [(lit ''id'', PStr (lit ''u123''))])"
  "example_json_loads [123, 34, 105, 100, 34, 58, 52, 50, 125] = Inr (PDict [(lit ''id'', PInt 42)])"
  by (simp_all add: example_json_loads_def)

lemma example_u123_derive:
  "derive_user_id example_env (lit ''h.eyJpZCI6InUxMjMifQ.s'') = Inr (PStr (lit ''u123''))"
proof -
  have "json_loads example_env [123, 34, 105, 100, 34, 58, 34, 117, 49, 50, 51, 34, 125] =
       Inr (PDict [(lit ''id'', PStr (lit ''u123''))])"
    by (simp add: example_env_simps example_json_loads_simps)
  moreover have "map_of [(lit ''id'', PStr (lit ''u123''))] (lit ''id'') = Some (PStr (lit ''u123''))"
    by simp
  ultimately have "extract_user_id example_env (lit ''h.eyJpZCI6InUxMjMifQ.s'') =
      Inr (PStr (lit ''u123''))"
    using example_u123 by (rule extract_id [rotated])
  then show ?thesis by (rule derive_success)
qed

lemma example_u123_derive_failing_log:
  "derive_user_id failing_log_env (lit ''h.eyJpZCI6InUxMjMifQ.s'') = Inr (PStr (lit ''u123''))"
proof -
  have "json_loads failing_log_env [123, 34, 105, 100, 34, 58, 34, 117, 49, 50, 51, 34, 125] =
       Inr (PDict [(lit ''id'', PStr (lit ''u123''))])"
    by (simp add: example_env_simps example_json_loads_simps)
  moreover have "map_of [(lit ''id'', PStr (lit ''u123''))] (lit ''id'') = Some (PStr (lit ''u123''))"
    by simp
  ultimately have "extract_user_id failing_log_env (lit ''h.eyJpZCI6InUxMjMifQ.s'') =
      Inr (PStr (lit ''u123''))"
    using example_u123 by (rule extract_id [rotated])
  then show ?thesis by (rule derive_success)
qed

lemma example_u123_generate:
  assumes "derive_user_id env (lit ''h.eyJpZCI6InUxMjMifQ.s'') = Inr (PStr (lit ''u123''))"
  shows "generate_zs_signature env (lit ''h.eyJpZCI6InUxMjMifQ.s'') (lit ''r1'')
        1700000000000 (lit ''hello'') =
       Inr \<lparr>sig_signature =
              spec_signature (lit ''requestId,r1,timestamp,'' @ str_int 1700000000000
                @ lit '',user_id,u123'') (lit ''hello'') 1700000000000,
            sig_timestamp = 1700000000000\<rparr>"
proof -
  let ?e = "lit ''requestId,r1,timestamp,'' @ str_int 1700000000000 @ lit '',user_id,u123''"
  have b: "encodable (lit ''hello'')"
    by (simp add: encodable_def lit_def)
  have c: "encodable ?e"
    by (simp add: encodable_append encodable_ascii str_int_ascii) (simp add: encodable_def lit_def)
  have z: "zs ?e (lit ''hello'') 1700000000000 =
      Inr \<lparr>sig_signature = spec_signature ?e (lit ''hello'') 1700000000000,
           sig_timestamp = 1700000000000\<rparr>"
    using b c
    by (simp add: zs_returns spec_signature_def spec_derived_key_def utf8_str_int utf8_hexdigest)
  have "descriptor env (lit ''r1'') 1700000000000 (PStr (lit ''u123'')) = ?e"
    by (simp add: descriptor_str lit_def)
  then show ?thesis
    using z by (simp only: generate_derived [OF assms])
qed

section \<open>The claims\<close>

subsection \<open>C1: the signature the core signer returns\<close>




subsection \<open>C2: the fallback to the guest user\<close>



subsection \<open>C3: the shape of the result\<close>



subsection \<open>C4: the descriptor and the delegation to the core signer\<close>



subsection \<open>C5: the window of the derived key\<close>

text \<open>
  C5: two timestamps with the same \<open>timestamp // 300000\<close> have the same derived key
  \<open>o\<close>. For two timestamps in different windows the HMAC messages differ, and the derived
  keys are equal exactly when HMAC-SHA256 under the key \<^verbatim>\<open>junjie\<close> collides on these two
  different messages (this is what "differs with overwhelming probability" rests on).
\<close>

theorem window_quantization:
  "(t1 div 300000 = t2 div 300000 \<longrightarrow> derived_key t1 = derived_key t2)
   \<and> (t1 div 300000 \<noteq> t2 div 300000 \<longrightarrow>
        utf8 (str_int (t1 div 300000)) \<noteq> utf8 (str_int (t2 div 300000))
        \<and> (derived_key t1 = derived_key t2 \<longleftrightarrow>
             hmac_sha256 [0x6a, 0x75, 0x6e, 0x6a, 0x69, 0x65] (utf8 (str_int (t1 div 300000))) =
             hmac_sha256 [0x6a, 0x75, 0x6e, 0x6a, 0x69, 0x65] (utf8 (str_int (t2 div 300000)))))"
proof (intro conjI impI)
  assume "t1 div 300000 = t2 div 300000"
  then show "derived_key t1 = derived_key t2" by (simp add: derived_key_eq)
next
  assume ne: "t1 div 300000 \<noteq> t2 div 300000"
  show "utf8 (str_int (t1 div 300000)) \<noteq> utf8 (str_int (t2 div 300000))"
  proof
    assume "utf8 (str_int (t1 div 300000)) = utf8 (str_int (t2 div 300000))"
    then have "map of_nat (str_int (t1 div 300000)) = (map of_nat (str_int (t2 div 300000)) :: byte list)"
      by (simp add: utf8_str_int)
    then have "str_int (t1 div 300000) = str_int (t2 div 300000)"
      by (rule ascii_bytes_inj) (simp_all add: str_int_ascii)
    then have "t1 div 300000 = t2 div 300000" by (rule str_int_inj)
    with ne show False by simp
  qed
next
  assume "t1 div 300000 \<noteq> t2 div 300000"
  show "derived_key t1 = derived_key t2 \<longleftrightarrow>
     hmac_sha256 [0x6a, 0x75, 0x6e, 0x6a, 0x69, 0x65] (utf8 (str_int (t1 div 300000))) =
     hmac_sha256 [0x6a, 0x75, 0x6e, 0x6a, 0x69, 0x65] (utf8 (str_int (t2 div 300000)))"
    using hexdigest_inj by (auto simp: derived_key_eq utf8_str_int)
qed

theorem window_quantization_witness:
  "(1700000000000 :: int) div 300000 = 1700000099999 div 300000
   \<and> derived_key 1700000000000 = derived_key 1700000099999
   \<and> (1700000000000 :: int) div 300000 \<noteq> 1700000100000 div 300000
   \<and> utf8 (str_int (1700000000000 div 300000)) \<noteq> utf8 (str_int (1700000100000 div 300000))"
  using window_quantization [of 1700000000000 1700000099999]
    window_quantization [of 1700000000000 1700000100000]
  by simp

subsection \<open>C6: the padding of the payload segment\<close>

text \<open>
  C6: for a payload segment of length \<open>L\<close> the extractor appends exactly
  \<open>(4 - L % 4) % 4\<close> characters \<^verbatim>\<open>=\<close> before decoding; when \<open>L\<close> is a multiple of 4 it
  appends none. The code's computation (\<open>padding = 4 - L % 4\<close>, appended when it differs
  from 4) agrees with the specification's formula for every \<open>L\<close>.
\<close>

theorem pad_payload_spec:
  "pad_payload payload = payload @ replicate (spec_padding (length payload)) 61
   \<and> (length payload mod 4 = 0 \<longrightarrow> pad_payload payload = payload)"
proof -
  have "int (length payload) mod 4 \<in> {0, 1, 2, 3}" by auto
  then show ?thesis
    by (auto simp: pad_payload_def spec_padding_def Let_def zmod_int)
qed

theorem pad_payload_spec_witness:
  "length (lit ''abcd'') mod 4 = 0 \<and> pad_payload (lit ''abcd'') = lit ''abcd''
   \<and> pad_payload (lit ''abcde'') = lit ''abcde==='' "
  using pad_payload_spec [of "lit ''abcd''"] pad_payload_spec [of "lit ''abcde''"]
  by (simp add: lit_def spec_padding_def replicate_numeral)

subsection \<open>C7: the user id of a valid token\<close>

text \<open>
  C7: for a token of three segments whose payload segment decodes to JSON with
  \<^verbatim>\<open>"id": "u123"\<close>, the user id in the descriptor is exactly \<^verbatim>\<open>u123\<close>.
\<close>

theorem valid_token_user_id:
  assumes "str_split 46 token = [header, payload, sig]"
    and "urlsafe_b64decode (pad_payload payload) = Inr decoded"
    and "json_loads env decoded = Inr (PDict kvs)"
    and "map_of kvs (lit ''id'') = Some (PStr (lit ''u123''))"
  shows "derive_user_id env token = Inr (PStr (lit ''u123''))
     \<and> generate_zs_signature env token request_id timestamp user_content =
         zs (lit ''requestId,'' @ request_id @ lit '',timestamp,'' @ str_int timestamp
               @ lit '',user_id,'' @ lit ''u123'') user_content timestamp"
proof -
  from assms(1,2) have "payload_bytes token = Inr decoded"
    by (simp add: payload_bytes_segments)
  from this assms(3,4) have "extract_user_id env token = Inr (PStr (lit ''u123''))"
    by (rule extract_id)
  then have d: "derive_user_id env token = Inr (PStr (lit ''u123''))"
    by (rule derive_success)
  then show ?thesis by (simp add: generate_derived descriptor_str)
qed

theorem valid_token_user_id_witness:
  "str_split 46 (lit ''h.eyJpZCI6InUxMjMifQ.s'') = [lit ''h'', lit ''eyJpZCI6InUxMjMifQ'', lit ''s'']
   \<and> urlsafe_b64decode (pad_payload (lit ''eyJpZCI6InUxMjMifQ'')) =
       Inr [123, 34, 105, 100, 34, 58, 34, 117, 49, 50, 51, 34, 125]
   \<and> json_loads example_env [123, 34, 105, 100, 34, 58, 34, 117, 49, 50, 51, 34, 125] =
       Inr (PDict [(lit ''id'', PStr (lit ''u123''))])
   \<and> map_of [(lit ''id'', PStr (lit ''u123''))] (lit ''id'') = Some (PStr (lit ''u123''))
   \<and> derive_user_id example_env (lit ''h.eyJpZCI6InUxMjMifQ.s'') = Inr (PStr (lit ''u123''))
   \<and> generate_zs_signature example_env (lit ''h.eyJpZCI6InUxMjMifQ.s'') (lit ''r1'')
         1700000000000 (lit ''hello'') =
       zs (lit ''requestId,'' @ lit ''r1'' @ lit '',timestamp,'' @ str_int 1700000000000
             @ lit '',user_id,'' @ lit ''u123'') (lit ''hello'') 1700000000000"
proof -
  have 3: "json_loads example_env [123, 34, 105, 100, 34, 58, 34, 117, 49, 50, 51, 34, 125] =
       Inr (PDict [(lit ''id'', PStr (lit ''u123''))])"
    by (simp add: example_env_simps example_json_loads_simps)
  have 4: "map_of [(lit ''id'', PStr (lit ''u123''))] (lit ''id'') = Some (PStr (lit ''u123''))"
    by simp
  from valid_token_user_id [OF example_u123_segments example_u123_decoded 3 4,
      of "lit ''r1''" 1700000000000 "lit ''hello''"]
    example_u123_segments example_u123_decoded 3 4
  show ?thesis by (simp only: simp_thms)
qed

subsection \<open>C8: determinism\<close>

text \<open>
  C8: two calls of \<^verbatim>\<open>generate_zs_signature\<close> with the same token, request id, timestamp
  and user content that both return, return the same signature (and the same result),
  whatever the log sink and the formatting of the log message do in the two calls: the
  function reads no clock and no random source, and the log sink cannot influence the
  signature.
\<close>

theorem signature_deterministic:
  assumes "json_loads env1 = json_loads env2"
    and "float_repr env1 = float_repr env2"
    and "str_repr env1 = str_repr env2"
    and "generate_zs_signature env1 token request_id timestamp user_content = Inr r1"
    and "generate_zs_signature env2 token request_id timestamp user_content = Inr r2"
  shows "sig_signature r1 = sig_signature r2 \<and> r1 = r2"
proof -
  from assms(4) obtain u1 where u1: "derive_user_id env1 token = Inr u1"
    by (auto simp: generate_zs_signature_def split: sum.splits)
  from assms(5) obtain u2 where u2: "derive_user_id env2 token = Inr u2"
    by (auto simp: generate_zs_signature_def split: sum.splits)
  have "u1 = u2"
    using u1 u2 extract_user_id_cong [OF assms(1), of token]
    by (auto simp: derive_user_id_def split: sum.splits option.splits)
  then have "descriptor env1 request_id timestamp u1 = descriptor env2 request_id timestamp u2"
    by (simp add: descriptor_def py_str_cong [OF assms(2,3)])
  with assms(4,5) u1 u2 show ?thesis by (simp add: generate_derived)
qed

theorem signature_deterministic_witness:
  "json_loads example_env = json_loads failing_log_env
   \<and> float_repr example_env = float_repr failing_log_env
   \<and> str_repr example_env = str_repr failing_log_env
   \<and> generate_zs_signature example_env (lit ''h.eyJpZCI6InUxMjMifQ.s'') (lit ''r1'')
        1700000000000 (lit ''hello'') =
       Inr \<lparr>sig_signature =
              spec_signature (lit ''requestId,r1,timestamp,'' @ str_int 1700000000000
                @ lit '',user_id,u123'') (lit ''hello'') 1700000000000,
            sig_timestamp = 1700000000000\<rparr>
   \<and> generate_zs_signature failing_log_env (lit ''h.eyJpZCI6InUxMjMifQ.s'') (lit ''r1'')
        1700000000000 (lit ''hello'') =
       generate_zs_signature example_env (lit ''h.eyJpZCI6InUxMjMifQ.s'') (lit ''r1'')
        1700000000000 (lit ''hello'')"
proof -
  have e: "json_loads example_env = json_loads failing_log_env"
    "float_repr example_env = float_repr failing_log_env"
    "str_repr example_env = str_repr failing_log_env"
    by (simp_all add: example_env_def failing_log_env_def)
  note g1 = example_u123_generate [OF example_u123_derive]
  note g2 = example_u123_generate [OF example_u123_derive_failing_log]
  from signature_deterministic [OF e g1 g2] e g1 g2 show ?thesis by simp
qed

subsection \<open>C9: a failure of the log sink\<close>




subsection \<open>C10: an id that is not a string\<close>

text \<open>
  C10: when the payload decodes to a JSON object that has the key \<^verbatim>\<open>id\<close>, whatever
  value it maps to (a string, a number, a boolean, null, an array or an object), there
  is no fallback to \<^verbatim>\<open>guest-user\<close> and the log sink is not called: the string form of
  the value (\<^verbatim>\<open>str\<close>) stands in the user id position of the descriptor.
\<close>

theorem any_id_value_interpolated:
  assumes "payload_bytes token = Inr decoded"
    and "json_loads env decoded = Inr (PDict kvs)"
    and "map_of kvs (lit ''id'') = Some v"
  shows "derive_user_id env token = Inr v
     \<and> generate_zs_signature env token request_id timestamp user_content =
         zs (lit ''requestId,'' @ request_id @ lit '',timestamp,'' @ str_int timestamp
               @ lit '',user_id,'' @ py_str env v) user_content timestamp
     \<and> py_str env (PStr s) = s
     \<and> py_str env (PInt i) = str_int i
     \<and> py_str env (PFloat f) = float_repr env f
     \<and> py_str env (PBool True) = lit ''True''
     \<and> py_str env (PBool False) = lit ''False''
     \<and> py_str env PNone = lit ''None''
     \<and> py_str env (PList vs) = lit ''['' @ join (lit '', '') (map (py_repr env) vs) @ lit '']''
     \<and> py_str env (PDict kvs') =
         lit ''{'' @ join (lit '', '')
           (map (\<lambda>kv. str_repr env (fst kv) @ lit '': '' @ py_repr env (snd kv)) kvs') @ lit ''}''"
proof -
  from assms have "extract_user_id env token = Inr v" by (rule extract_id)
  then have "derive_user_id env token = Inr v" by (rule derive_success)
  then show ?thesis by (simp add: generate_derived descriptor_def py_str_def)
qed

theorem any_id_value_interpolated_witness:
  "payload_bytes (lit ''h.eyJpZCI6NDJ9.s'') = Inr [123, 34, 105, 100, 34, 58, 52, 50, 125]
   \<and> json_loads failing_log_env [123, 34, 105, 100, 34, 58, 52, 50, 125] =
       Inr (PDict [(lit ''id'', PInt 42)])
   \<and> map_of [(lit ''id'', PInt 42)] (lit ''id'') = Some (PInt 42)
   \<and> derive_user_id failing_log_env (lit ''h.eyJpZCI6NDJ9.s'') = Inr (PInt 42)
   \<and> generate_zs_signature failing_log_env (lit ''h.eyJpZCI6NDJ9.s'') (lit ''r1'')
         1700000000000 (lit ''hello'') =
       zs (lit ''requestId,'' @ lit ''r1'' @ lit '',timestamp,'' @ str_int 1700000000000
             @ lit '',user_id,'' @ str_int 42) (lit ''hello'') 1700000000000"
proof -
  have 2: "json_loads failing_log_env [123, 34, 105, 100, 34, 58, 52, 50, 125] =
       Inr (PDict [(lit ''id'', PInt 42)])"
    by (simp add: example_env_simps example_json_loads_simps)
  have 3: "map_of [(lit ''id'', PInt 42)] (lit ''id'') = Some (PInt 42)"
    by simp
  from any_id_value_interpolated [OF example_42 2 3, of "lit ''r1''" 1700000000000 "lit ''hello''"]
    example_42 2 3
  show ?thesis by (simp add: py_str_def)
qed

end
